theory Spec2Isabelle
  imports Complex_Main
begin

section \<open>Response cache (src/adsense/cache.ts)\<close>

text \<open>
  The cache is one SQLite table, \<open>report_cache\<close>. A table is the list of its rows in
  insertion order; the AUTOINCREMENT counter of the \<open>id\<close> column is kept beside it.
  Timestamps are the integers of \<open>Date.now()\<close> (milliseconds); every operation takes the
  reading of the clock as an argument.

  \<open>JSON.stringify\<close>, \<open>JSON.parse\<close> and the MD5 digest belong to the runtime, not to
  the repository: they are the fields of a \<open>platform\<close> record that every operation
  receives. \<open>'p\<close> is the type of parameter objects, \<open>'v\<close> the type of payloads.
\<close>

record ('p, 'v) platform =
  stringifyParams :: "'p \<Rightarrow> string"
  stringify :: "'v \<Rightarrow> string"
  parse :: "string \<Rightarrow> 'v"
  md5hex :: "string \<Rightarrow> string"

record cache_row =
  rowid :: int
  cache_key :: string
  account_id :: string
  query_hash :: string
  response_data :: string
  created_at :: int
  expires_at :: int

record cache_db =
  report_cache :: "cache_row list"
  autoincrement :: int

text \<open>The TTL table \<open>CacheTTL\<close>, in milliseconds.\<close>

definition TODAY_EARNINGS :: int where "TODAY_EARNINGS = 5 * 60 * 1000"
definition YESTERDAY_EARNINGS :: int where "YESTERDAY_EARNINGS = 60 * 60 * 1000"
definition HISTORICAL_REPORT :: int where "HISTORICAL_REPORT = 24 * 60 * 60 * 1000"
definition ACCOUNTS :: int where "ACCOUNTS = 24 * 60 * 60 * 1000"

text \<open>\<open>initSchema\<close> on a fresh file: an empty table.\<close>

definition initSchema :: cache_db where
  "initSchema = \<lparr>report_cache = [], autoincrement = 0\<rparr>"

definition generateCacheKey :: "('p, 'v) platform \<Rightarrow> string \<Rightarrow> 'p \<Rightarrow> string" where
  "generateCacheKey pf prefix params =
     prefix @ '':'' @ md5hex pf (stringifyParams pf params)"

text \<open>
  \<open>get\<close>: the row selected by \<open>cache_key\<close> (the first one, as \<open>.get()\<close> of a prepared
  statement returns), decoded when \<open>expires_at > now\<close>; \<open>None\<close> is the \<open>return null\<close>.
\<close>

definition CacheManager_get ::
  "('p, 'v) platform \<Rightarrow> cache_db \<Rightarrow> string \<Rightarrow> 'p \<Rightarrow> int \<Rightarrow> 'v option" where
  "CacheManager_get pf db prefix params now =
     (let cacheKey = generateCacheKey pf prefix params in
      case find (\<lambda>r. cache_key r = cacheKey) (report_cache db) of
        Some row \<Rightarrow> if expires_at row > now then Some (parse pf (response_data row)) else None
      | None \<Rightarrow> None)"

text \<open>
  \<open>set\<close>: \<open>INSERT OR REPLACE\<close>. The column \<open>cache_key\<close> is UNIQUE, so the rows already
  holding the key are deleted and the new row is inserted under a fresh \<open>id\<close>.
\<close>

definition CacheManager_set ::
  "('p, 'v) platform \<Rightarrow> cache_db \<Rightarrow> string \<Rightarrow> 'p \<Rightarrow> 'v \<Rightarrow> int \<Rightarrow> string \<Rightarrow> int \<Rightarrow> cache_db" where
  "CacheManager_set pf db prefix params data ttl accountId now =
     (let cacheKey = generateCacheKey pf prefix params;
          queryHash = md5hex pf (stringifyParams pf params);
          row = \<lparr>rowid = autoincrement db + 1, cache_key = cacheKey, account_id = accountId,
                 query_hash = queryHash, response_data = stringify pf data,
                 created_at = now, expires_at = now + ttl\<rparr>
      in \<lparr>report_cache = filter (\<lambda>r. cache_key r \<noteq> cacheKey) (report_cache db) @ [row],
          autoincrement = autoincrement db + 1\<rparr>)"




section \<open>Calendar dates of the runtime (ECMAScript \<open>Date\<close>)\<close>

text \<open>
  \<open>getReportTTL\<close> and the helpers \<open>getYesterday\<close> and \<open>get7DaysAgo\<close> compute their
  date strings with \<open>new Date()\<close>, \<open>getDate\<close>, \<open>setDate\<close> and \<open>toISOString\<close>. These
  belong to the language: they are written out here as ECMA-262 defines them, on time
  values (milliseconds since the epoch, UTC). The time zone of the process is the function
  \<open>LocalTZA\<close> of the standard: the offset of local time, asked for a UTC time value
  (\<open>True\<close>) or for a local one (\<open>False\<close>).
\<close>

type_synonym time_zone = "int \<Rightarrow> bool \<Rightarrow> int"

definition msPerDay :: int where "msPerDay = 86400000"

definition Day :: "int \<Rightarrow> int" where "Day t = t div msPerDay"

definition TimeWithinDay :: "int \<Rightarrow> int" where "TimeWithinDay t = t mod msPerDay"

text \<open>
  Years: \<open>DaysInYear\<close> and \<open>DayFromYear\<close> are the standard's formulas. \<open>YearFromTime(t)\<close>
  is the largest year \<open>y\<close> with \<open>DayFromYear(y) \<le> Day(t)\<close>; it is found by counting years
  down from an estimate that is not below it (every year has at least 365 and at most 366
  days), within a number of steps that grows with the distance from 1970.
\<close>

definition DaysInYear :: "int \<Rightarrow> int" where
  "DaysInYear y =
     (if y mod 4 \<noteq> 0 then 365
      else if y mod 100 \<noteq> 0 then 366
      else if y mod 400 \<noteq> 0 then 365
      else 366)"

definition DayFromYear :: "int \<Rightarrow> int" where
  "DayFromYear y =
     365 * (y - 1970) + (y - 1969) div 4 - (y - 1901) div 100 + (y - 1601) div 400"

fun year_not_after :: "nat \<Rightarrow> int \<Rightarrow> int \<Rightarrow> int" where
  "year_not_after 0 y d = y"
| "year_not_after (Suc n) y d = (if DayFromYear y \<le> d then y else year_not_after n (y - 1) d)"

definition YearFromTime :: "int \<Rightarrow> int" where
  "YearFromTime t =
     (let d = Day t;
          estimate = 1970 + (if 0 \<le> d then d div 365 else d div 366) + 1
      in year_not_after (nat (\<bar>d\<bar> div 100000) + 3) estimate d)"

definition InLeapYear :: "int \<Rightarrow> int" where
  "InLeapYear t = (if DaysInYear (YearFromTime t) = 365 then 0 else 1)"

definition DayWithinYear :: "int \<Rightarrow> int" where
  "DayWithinYear t = Day t - DayFromYear (YearFromTime t)"

text \<open>
  Months, numbered from 0: \<open>monthStart leap m\<close> is the day within the year on which month
  \<open>m\<close> begins. \<open>MonthFromTime\<close> and \<open>DateFromTime\<close> are the two tables of the standard, the
  second written as the distance from the beginning of the month.
\<close>

definition monthStart :: "int \<Rightarrow> int \<Rightarrow> int" where
  "monthStart leap m =
     (if m = 0 then 0
      else if m = 1 then 31
      else if m = 2 then 59 + leap
      else if m = 3 then 90 + leap
      else if m = 4 then 120 + leap
      else if m = 5 then 151 + leap
      else if m = 6 then 181 + leap
      else if m = 7 then 212 + leap
      else if m = 8 then 243 + leap
      else if m = 9 then 273 + leap
      else if m = 10 then 304 + leap
      else 334 + leap)"

definition MonthFromTime :: "int \<Rightarrow> int" where
  "MonthFromTime t =
     (let d = DayWithinYear t; leap = InLeapYear t
      in if d < 31 then 0
         else if d < 59 + leap then 1
         else if d < 90 + leap then 2
         else if d < 120 + leap then 3
         else if d < 151 + leap then 4
         else if d < 181 + leap then 5
         else if d < 212 + leap then 6
         else if d < 243 + leap then 7
         else if d < 273 + leap then 8
         else if d < 304 + leap then 9
         else if d < 334 + leap then 10
         else 11)"

definition DateFromTime :: "int \<Rightarrow> int" where
  "DateFromTime t = DayWithinYear t - monthStart (InLeapYear t) (MonthFromTime t) + 1"

text \<open>
  \<open>MakeDay(year, month, date)\<close>: the day number of the first of the month \<open>month mod 12\<close> in
  the year \<open>year + month div 12\<close>, plus \<open>date - 1\<close>.
\<close>

definition MakeDay :: "int \<Rightarrow> int \<Rightarrow> int \<Rightarrow> int" where
  "MakeDay year month date =
     (let ym = year + month div 12;
          mn = month mod 12;
          leap = (if DaysInYear ym = 365 then 0 else 1)
      in DayFromYear ym + monthStart leap mn + date - 1)"

definition MakeDate :: "int \<Rightarrow> int \<Rightarrow> int" where
  "MakeDate day time = day * msPerDay + time"

definition LocalTime :: "time_zone \<Rightarrow> int \<Rightarrow> int" where
  "LocalTime tz t = t + tz t True"

definition UTC :: "time_zone \<Rightarrow> int \<Rightarrow> int" where
  "UTC tz t = t - tz t False"

definition getDate :: "time_zone \<Rightarrow> int \<Rightarrow> int" where
  "getDate tz t = DateFromTime (LocalTime tz t)"

definition setDate :: "time_zone \<Rightarrow> int \<Rightarrow> int \<Rightarrow> int" where
  "setDate tz t dt =
     (let lt = LocalTime tz t;
          newDate = MakeDate (MakeDay (YearFromTime lt) (MonthFromTime lt) dt) (TimeWithinDay lt)
      in UTC tz newDate)"

text \<open>Decimal digits, padded with zeros to the widths \<open>toISOString\<close> uses.\<close>

definition digit :: "int \<Rightarrow> char" where
  "digit n = ''0123456789'' ! nat (n mod 10)"

definition pad2 :: "int \<Rightarrow> string" where
  "pad2 n = [digit (n div 10), digit n]"

definition pad3 :: "int \<Rightarrow> string" where
  "pad3 n = digit (n div 100) # pad2 n"

definition pad4 :: "int \<Rightarrow> string" where
  "pad4 n = digit (n div 1000) # pad3 n"

definition pad6 :: "int \<Rightarrow> string" where
  "pad6 n = digit (n div 100000) # digit (n div 10000) # pad4 n"

definition isoYear :: "int \<Rightarrow> string" where
  "isoYear y =
     (if 0 \<le> y \<and> y \<le> 9999 then pad4 y
      else if y < 0 then ''-'' @ pad6 (- y)
      else ''+'' @ pad6 y)"

definition toISOString :: "int \<Rightarrow> string" where
  "toISOString t =
     (let w = TimeWithinDay t in
      isoYear (YearFromTime t) @ ''-'' @ pad2 (MonthFromTime t + 1) @ ''-''
        @ pad2 (DateFromTime t) @ ''T''
        @ pad2 (w div 3600000) @ '':'' @ pad2 (w div 60000 mod 60) @ '':''
        @ pad2 (w div 1000 mod 60) @ ''.'' @ pad3 (w mod 1000) @ ''Z'')"

text \<open>\<open>s.split('T')[0]\<close>: the text before the first \<open>T\<close>.\<close>

definition split_T_0 :: "string \<Rightarrow> string" where
  "split_T_0 s = takeWhile (\<lambda>c. c \<noteq> CHR ''T'') s"

section \<open>TTL policy selector (\<open>AdSenseClient.getReportTTL\<close>)\<close>

text \<open>
  The two date strings the selector compares with. \<open>today\<close> is
  \<open>new Date().toISOString().split('T')[0]\<close>; \<open>yesterdayStr\<close> is the same text of the date
  object after \<open>setDate(getDate() - 1)\<close>. Both \<open>new Date()\<close> of the call read the clock
  in the same millisecond \<open>now\<close>.
\<close>

definition today :: "int \<Rightarrow> string" where
  "today now = split_T_0 (toISOString now)"

definition yesterdayStr :: "time_zone \<Rightarrow> int \<Rightarrow> string" where
  "yesterdayStr tz now = split_T_0 (toISOString (setDate tz now (getDate tz now - 1)))"

definition getReportTTL :: "time_zone \<Rightarrow> int \<Rightarrow> string \<Rightarrow> string \<Rightarrow> int" where
  "getReportTTL tz now startDate endDate =
     (if endDate = today now \<or> startDate = today now then TODAY_EARNINGS
      else if endDate = yesterdayStr tz now then YESTERDAY_EARNINGS
      else HISTORICAL_REPORT)"

text \<open>The helpers of the tool handlers that produce default date bounds.\<close>

definition getYesterday :: "time_zone \<Rightarrow> int \<Rightarrow> string" where
  "getYesterday tz now = split_T_0 (toISOString (setDate tz now (getDate tz now - 1)))"

definition get7DaysAgo :: "time_zone \<Rightarrow> int \<Rightarrow> string" where
  "get7DaysAgo tz now = split_T_0 (toISOString (setDate tz now (getDate tz now - 7)))"


text \<open>A time zone whose offset from UTC never changes.\<close>

definition fixedOffset :: "int \<Rightarrow> time_zone" where
  "fixedOffset offset = (\<lambda>t isUTC. offset)"

section \<open>Request throttle (\<open>RateLimiter.throttle\<close>, src/adsense/rateLimiter.ts)\<close>

definition MAX_REQUESTS_PER_MINUTE :: nat where "MAX_REQUESTS_PER_MINUTE = 100"
definition MAX_RETRIES :: nat where "MAX_RETRIES = 5"
definition BASE_DELAY_MS :: real where "BASE_DELAY_MS = 1000"
definition MAX_DELAY_MS :: real where "MAX_DELAY_MS = 32000"

text \<open>
  The time the caller is suspended: \<open>None\<close> when \<open>sleep\<close> is not called. \<open>pruned\<close> is
  the window after the filter, \<open>now\<close> the first reading of the clock. Index 0 is read only
  when the window holds at least 100 timestamps.
\<close>

definition waitTime :: "int list \<Rightarrow> int \<Rightarrow> int option" where
  "waitTime pruned now =
     (if length pruned \<ge> MAX_REQUESTS_PER_MINUTE then
        (let oldestInWindow = pruned ! 0;
             wt = oldestInWindow + 60000 - now + 100
         in if wt > 0 then Some wt else None)
      else None)"

text \<open>
  \<open>throttle\<close> on the window \<open>requestTimestamps\<close>, entered when the clock reads \<open>now\<close>.
  A timer does not fire early: \<open>sleep(w)\<close> returns \<open>w + late\<close> milliseconds after it
  was called, \<open>late\<close> being the lateness of the timer. Without a sleep the second
  \<open>Date.now()\<close> reads the same millisecond as the first. The result is the new window and
  the reading of the clock when the call returns. There is no branch that throws.
\<close>

definition throttle :: "int list \<Rightarrow> int \<Rightarrow> int \<Rightarrow> int list \<times> int" where
  "throttle requestTimestamps now late =
     (let oneMinuteAgo = now - 60000;
          pruned = filter (\<lambda>ts. ts > oneMinuteAgo) requestTimestamps;
          resumed = (case waitTime pruned now of
                       Some wt \<Rightarrow> now + wt + late
                     | None \<Rightarrow> now)
      in (pruned @ [resumed], resumed))"

text \<open>
  Calls made one after the other on the same limiter: each is given the reading of the
  clock when it is entered and the lateness of its timer.
\<close>

fun throttle_calls :: "int list \<Rightarrow> (int \<times> int) list \<Rightarrow> int list" where
  "throttle_calls window [] = window"
| "throttle_calls window ((now, late) # calls) =
     throttle_calls (fst (throttle window now late)) calls"

section \<open>Backoff executor (\<open>withRetry\<close>, src/adsense/rateLimiter.ts)\<close>

text \<open>
  What the executor reads of a thrown value: \<open>code\<close> and \<open>status\<close> (a number, a string or
  missing) and \<open>message\<close> (a string or missing).
\<close>

datatype js_value = JNumber int | JString string | JUndefined

record api_error =
  err_code :: js_value
  err_status :: js_value
  err_message :: "string option"

text \<open>\<open>new Error(msg)\<close>: a message and nothing else.\<close>

definition Error :: "string \<Rightarrow> api_error" where
  "Error msg = \<lparr>err_code = JUndefined, err_status = JUndefined, err_message = Some msg\<rparr>"

text \<open>\<open>s.includes(pat)\<close> and \<open>s.startsWith(pat)\<close>.\<close>

definition startsWith :: "string \<Rightarrow> string \<Rightarrow> bool" where
  "startsWith s pat = (take (length pat) s = pat)"

fun includes_js :: "string \<Rightarrow> string \<Rightarrow> bool" where
  "includes_js [] pat = (pat = [])"
| "includes_js (c # cs) pat = (startsWith (c # cs) pat \<or> includes_js cs pat)"

text \<open>\<open>error.message?.includes(pat)\<close>, as a condition.\<close>

definition message_includes :: "api_error \<Rightarrow> string \<Rightarrow> bool" where
  "message_includes error pat =
     (case err_message error of None \<Rightarrow> False | Some m \<Rightarrow> includes_js m pat)"

definition isRateLimited :: "api_error \<Rightarrow> bool" where
  "isRateLimited error =
     (err_code error = JNumber 429 \<or>
      err_status error = JNumber 429 \<or>
      message_includes error ''quota'' \<or>
      message_includes error ''rate limit'' \<or>
      message_includes error ''RATE_LIMIT_EXCEEDED'')"

definition isRetryable :: "api_error \<Rightarrow> bool" where
  "isRetryable error =
     (isRateLimited error \<or>
      err_code error = JNumber 503 \<or>
      err_code error = JNumber 500 \<or>
      err_status error = JNumber 503 \<or>
      err_status error = JNumber 500 \<or>
      err_code error = JString ''ECONNRESET'' \<or>
      err_code error = JString ''ETIMEDOUT'')"

text \<open>
  One run of the executor. \<open>operation k\<close> is what the \<open>k\<close>-th invocation of the operation
  does (\<open>Inl\<close>: it throws) and \<open>random k\<close> the \<open>k\<close>-th value of \<open>Math.random()\<close>; one
  value is drawn after each failed attempt that is retried, so both are indexed by the
  attempt. The run records what the caller gets (\<open>Inl\<close>: the thrown value), the
  arguments of the calls of \<open>sleep\<close> in order, and how often the operation was invoked.
\<close>

record 'a retry_run =
  outcome :: "api_error + 'a"
  delays :: "real list"
  attempts :: nat

text \<open>
  The delay is computed in the runtime's numbers, IEEE 754 binary64. Only numbers that are
  not negative occur. \<open>binary64 x\<close> is the double nearest to the exact value \<open>x \<ge> 0\<close>,
  the even one of two nearest. Below \<open>2^53\<close> the doubles near \<open>x\<close> are the multiples of
  \<open>1/p\<close>, where \<open>p\<close> is the largest power of two up to \<open>2^1074\<close> with \<open>x * p < 2^53\<close>;
  from \<open>2^53\<close> on they are the multiples of the least power of two \<open>p\<close> with
  \<open>x < 2^53 * p\<close>; a result of \<open>2^1024\<close> or more is \<open>Infinity\<close>.
\<close>

datatype double = Finite real | Infinity

definition round_ties_even :: "real \<Rightarrow> int" where
  "round_ties_even x =
     (let f = \<lfloor>x\<rfloor>
      in if x - of_int f < 1 / 2 then f
         else if 1 / 2 < x - of_int f then f + 1
         else if even f then f else f + 1)"

fun scale_down :: "nat \<Rightarrow> real \<Rightarrow> real \<Rightarrow> real" where
  "scale_down 0 p x = p"
| "scale_down (Suc n) p x = (if x * (2 * p) < 2 ^ 53 then scale_down n (2 * p) x else p)"

fun scale_up :: "nat \<Rightarrow> real \<Rightarrow> real \<Rightarrow> real" where
  "scale_up 0 p x = p"
| "scale_up (Suc n) p x = (if x < 2 ^ 53 * p then p else scale_up n (2 * p) x)"

definition binary64 :: "real \<Rightarrow> double" where
  "binary64 x =
     (if x < 2 ^ 53 then
        (let p = scale_down 1074 1 x
         in Finite (of_int (round_ties_even (x * p)) / p))
      else
        (let p = scale_up 971 2 x;
             v = of_int (round_ties_even (x / p)) * p
         in if 2 ^ 1024 \<le> v then Infinity else Finite v))"

text \<open>
  The operations of the delay on doubles that are not negative: \<open>Math.pow(2, n)\<close> for a
  count \<open>n\<close>, the product and the sum (of a finite and an infinite operand the product is
  taken for a finite operand that is not zero), and \<open>Math.min(d, m)\<close> for a finite \<open>m\<close>.
\<close>

definition Math_pow2 :: "nat \<Rightarrow> double" where
  "Math_pow2 n = binary64 (2 ^ n)"

fun times64 :: "double \<Rightarrow> double \<Rightarrow> double" where
  "times64 (Finite a) (Finite b) = binary64 (a * b)"
| "times64 a b = Infinity"

fun plus64 :: "double \<Rightarrow> double \<Rightarrow> double" where
  "plus64 (Finite a) (Finite b) = binary64 (a + b)"
| "plus64 a b = Infinity"

fun Math_min :: "double \<Rightarrow> real \<Rightarrow> real" where
  "Math_min (Finite a) m = min a m"
| "Math_min Infinity m = m"

definition backoffDelay :: "nat \<Rightarrow> real \<Rightarrow> real" where
  "backoffDelay attempt rnd =
     Math_min
       (plus64 (times64 (Finite BASE_DELAY_MS) (Math_pow2 attempt))
               (times64 (Finite rnd) (Finite 1000)))
       MAX_DELAY_MS"

function withRetry_from ::
  "(nat \<Rightarrow> api_error + 'a) \<Rightarrow> (nat \<Rightarrow> real) \<Rightarrow> nat \<Rightarrow> nat \<Rightarrow> api_error option \<Rightarrow> 'a retry_run" where
  "withRetry_from operation random retries attempt lastError =
     (if attempt < retries then
        (case operation attempt of
           Inr result \<Rightarrow> \<lparr>outcome = Inr result, delays = [], attempts = 1\<rparr>
         | Inl error \<Rightarrow>
             if \<not> isRetryable error \<or> attempt = retries - 1
             then \<lparr>outcome = Inl error, delays = [], attempts = 1\<rparr>
             else
               (let delay = backoffDelay attempt (random attempt);
                    rest = withRetry_from operation random retries (attempt + 1) (Some error)
                in \<lparr>outcome = outcome rest, delays = delay # delays rest,
                    attempts = Suc (attempts rest)\<rparr>))
      else \<lparr>outcome = Inl (case lastError of Some e \<Rightarrow> e
                                | None \<Rightarrow> Error ''Max retries exceeded''),
            delays = [], attempts = 0\<rparr>)"
  by pat_completeness auto
termination
  by (relation "measure (\<lambda>(operation, random, retries, attempt, lastError). retries - attempt)") auto

declare withRetry_from.simps [simp del]

definition withRetry :: "(nat \<Rightarrow> api_error + 'a) \<Rightarrow> (nat \<Rightarrow> real) \<Rightarrow> nat \<Rightarrow> 'a retry_run" where
  "withRetry operation random retries = withRetry_from operation random retries 0 None"






section \<open>API facade (\<open>AdSenseClient\<close>, src/adsense/client.ts)\<close>

text \<open>
  The part of the client that resolves the account, lists the accounts and exports a CSV
  report. The cache keeps account listings; the parameter objects of the cache are \<open>{}\<close>
  and \<open>{ accountId }\<close>.
\<close>

record AdSenseAccount =
  name :: string
  displayName :: "string option"

datatype cache_params = EmptyObject | AccountIdObject string

record ReportQuery =
  accountId :: "string option"
  startDate :: string
  endDate :: string
  dimensions :: "string list option"
  metrics :: "string list option"
  dateRange :: "string option"

text \<open>
  A call of the upstream API: the method, and for a CSV report the account and the query
  its parameter object is built from.
\<close>

datatype request = AccountsList | ReportsGenerateCsv string ReportQuery

text \<open>
  What a client is created with and what surrounds it: the configured default account,
  the runtime, the upstream API (its answer to the \<open>n\<close>-th call it receives, \<open>n\<close> counted
  from 0 over all calls) and the values of \<open>Math.random()\<close>.
\<close>

record client =
  defaultAccountId :: "string option"
  runtime :: "(cache_params, AdSenseAccount list) platform"
  accounts_list :: "nat \<Rightarrow> api_error + AdSenseAccount list option"
  reports_generateCsv :: "nat \<Rightarrow> string \<Rightarrow> ReportQuery \<Rightarrow> api_error + string"
  math_random :: "nat \<Rightarrow> real"

text \<open>
  The state the operations share: the cache, the window of the one rate limiter, the
  clock, the upstream calls made so far and the number of random values drawn.
\<close>

record world =
  cache :: cache_db
  requestTimestamps :: "int list"
  clock :: int
  sent :: "request list"
  drawn :: nat

text \<open>A string that is given and not empty is what \<open>if (s)\<close> accepts.\<close>

definition truthy :: "string option \<Rightarrow> bool" where
  "truthy s = (case s of None \<Rightarrow> False | Some x \<Rightarrow> x \<noteq> [])"

definition with_prefix :: "string \<Rightarrow> string" where
  "with_prefix x = (if startsWith x ''accounts/'' then x else ''accounts/'' @ x)"

text \<open>\<open>await rateLimiter.throttle()\<close>; timers fire on time.\<close>

definition rateLimiter_throttle :: "world \<Rightarrow> world" where
  "rateLimiter_throttle w =
     (let r = throttle (requestTimestamps w) (clock w) 0
      in w\<lparr>requestTimestamps := fst r, clock := snd r\<rparr>)"

text \<open>
  \<open>await withRetry(() => upstream call)\<close>: every attempt is one call \<open>req\<close> sent upstream,
  every delay one random value drawn and a sleep, which \<open>setTimeout\<close> truncates to whole
  milliseconds.
\<close>

definition withRetry_upstream ::
  "client \<Rightarrow> (nat \<Rightarrow> api_error + 'a) \<Rightarrow> request \<Rightarrow> world \<Rightarrow> (api_error + 'a) \<times> world" where
  "withRetry_upstream c api req w =
     (let run = withRetry (\<lambda>k. api (length (sent w) + k)) (\<lambda>k. math_random c (drawn w + k))
                  MAX_RETRIES
      in (outcome run,
          w\<lparr>clock := clock w + sum_list (map (\<lambda>d. \<lfloor>d\<rfloor>) (delays run)),
            sent := sent w @ replicate (attempts run) req,
            drawn := drawn w + length (delays run)\<rparr>))"

text \<open>
  \<open>listAccounts\<close>: a cached listing is an array, which \<open>if (cached)\<close> accepts even when
  it is empty; \<open>response.data.accounts || []\<close> is the listing of the answer, empty when the
  answer has none.
\<close>

definition listAccounts :: "client \<Rightarrow> world \<Rightarrow> (api_error + AdSenseAccount list) \<times> world" where
  "listAccounts c w =
     (case CacheManager_get (runtime c) (cache w) ''accounts'' EmptyObject (clock w) of
        Some cached \<Rightarrow> (Inr cached, w)
      | None \<Rightarrow>
          (let w1 = rateLimiter_throttle w;
               r = withRetry_upstream c (accounts_list c) AccountsList w1;
               w2 = snd r
           in case fst r of
                Inl error \<Rightarrow> (Inl error, w2)
              | Inr response \<Rightarrow>
                  (let accounts = (case response of None \<Rightarrow> [] | Some a \<Rightarrow> a)
                   in (Inr accounts,
                       w2\<lparr>cache := CacheManager_set (runtime c) (cache w2) ''accounts''
                                     EmptyObject accounts ACCOUNTS ''global'' (clock w2)\<rparr>))))"

definition resolveAccountId ::
  "client \<Rightarrow> string option \<Rightarrow> world \<Rightarrow> (api_error + string) \<times> world" where
  "resolveAccountId c explicitId w =
     (if truthy explicitId then (Inr (with_prefix (the explicitId)), w)
      else if truthy (defaultAccountId c) then (Inr (with_prefix (the (defaultAccountId c))), w)
      else
        (let r = listAccounts c w
         in case fst r of
              Inl error \<Rightarrow> (Inl error, snd r)
            | Inr accounts \<Rightarrow>
                (case accounts of
                   [] \<Rightarrow> (Inl (Error ''No AdSense accounts found''), snd r)
                 | first # others \<Rightarrow> (Inr (name first), snd r))))"

definition generateCsvReport ::
  "client \<Rightarrow> ReportQuery \<Rightarrow> world \<Rightarrow> (api_error + string) \<times> world" where
  "generateCsvReport c query w =
     (let r = resolveAccountId c (accountId query) w
      in case fst r of
           Inl error \<Rightarrow> (Inl error, snd r)
         | Inr resolvedId \<Rightarrow>
             (let w1 = rateLimiter_throttle (snd r)
              in withRetry_upstream c (\<lambda>n. reports_generateCsv c n resolvedId query)
                   (ReportsGenerateCsv resolvedId query) w1))"

section \<open>Example runtimes and states\<close>

text \<open>
  A runtime whose parameter objects and payloads are already texts, so that encoding and
  decoding change nothing; the digest is replaced by the text itself.
\<close>

definition text_platform :: "(string, string) platform" where
  "text_platform = \<lparr>stringifyParams = (\<lambda>p. p), stringify = (\<lambda>v. v), parse = (\<lambda>s. s),
                     md5hex = (\<lambda>s. s)\<rparr>"

text \<open>
  A runtime for the client: an account listing is written as the names of its accounts,
  each followed by a semicolon, and read back from that text.
\<close>

fun fields :: "string \<Rightarrow> string \<Rightarrow> string list" where
  "fields acc [] = []"
| "fields acc (c # cs) = (if c = CHR '';'' then rev acc # fields [] cs else fields (c # acc) cs)"

definition listing_platform :: "(cache_params, AdSenseAccount list) platform" where
  "listing_platform =
     \<lparr>stringifyParams = (\<lambda>p. case p of EmptyObject \<Rightarrow> ''{}'' | AccountIdObject a \<Rightarrow> ''{'' @ a @ ''}''),
      stringify = (\<lambda>v. concat (map (\<lambda>a. name a @ '';'') v)),
      parse = (\<lambda>s. map (\<lambda>n. \<lparr>name = n, displayName = None\<rparr>) (fields [] s)),
      md5hex = (\<lambda>s. s)\<rparr>"

text \<open>
  A client without a default account whose upstream API lists \<open>accounts\<close> and answers every
  CSV request with the same text; a state with an empty cache and an empty window.
\<close>

definition example_client :: "AdSenseAccount list \<Rightarrow> client" where
  "example_client accounts =
     \<lparr>defaultAccountId = None, runtime = listing_platform,
      accounts_list = (\<lambda>n. Inr (Some accounts)),
      reports_generateCsv = (\<lambda>n account query. Inr ''DATE,ESTIMATED_EARNINGS''),
      math_random = (\<lambda>n. 0)\<rparr>"

definition fresh_world :: "int \<Rightarrow> world" where
  "fresh_world now =
     \<lparr>cache = initSchema, requestTimestamps = [], clock = now, sent = [], drawn = 0\<rparr>"

definition example_query :: "string option \<Rightarrow> ReportQuery" where
  "example_query account =
     \<lparr>accountId = account, startDate = ''2024-01-01'', endDate = ''2024-01-02'',
      dimensions = None, metrics = None, dateRange = None\<rparr>"

text \<open>Failures and accounts for the examples.\<close>

definition err429 :: api_error where
  "err429 = \<lparr>err_code = JNumber 429, err_status = JUndefined, err_message = None\<rparr>"





definition err503 :: api_error where
  "err503 = \<lparr>err_code = JNumber 503, err_status = JUndefined, err_message = None\<rparr>"

text \<open>A client whose upstream API answers the first call it receives with status 503.\<close>

definition flaky_client :: client where
  "flaky_client =
     (example_client [])
       \<lparr>reports_generateCsv :=
          (\<lambda>n account query. if n = 0 then Inl err503 else Inr ''DATE,ESTIMATED_EARNINGS'')\<rparr>"


section \<open>Properties of the response cache\<close>

lemma find_after_replace:
  "find (\<lambda>r. cache_key r = k) (filter (\<lambda>r. cache_key r \<noteq> k) rows @ [row\<lparr>cache_key := k\<rparr>])
     = Some (row\<lparr>cache_key := k\<rparr>)"
  by (induction rows) auto

lemma filter_after_replace:
  "filter (\<lambda>r. cache_key r = k) (filter (\<lambda>r. cache_key r \<noteq> k) rows @ [row\<lparr>cache_key := k\<rparr>])
     = [row\<lparr>cache_key := k\<rparr>]"
  by (induction rows) auto

lemma get_after_set:
  "CacheManager_get pf (CacheManager_set pf db prefix params data ttl acct now) prefix params now'
     = (if now' < now + ttl then Some (parse pf (stringify pf data)) else None)"
proof -
  let ?k = "generateCacheKey pf prefix params"
  let ?row = "\<lparr>rowid = autoincrement db + 1, cache_key = ?k, account_id = acct,
                query_hash = md5hex pf (stringifyParams pf params),
                response_data = stringify pf data,
                created_at = now, expires_at = now + ttl\<rparr>"
  have "find (\<lambda>r. cache_key r = ?k) (filter (\<lambda>r. cache_key r \<noteq> ?k) (report_cache db) @ [?row])
          = Some ?row"
    using find_after_replace [of ?k "report_cache db" ?row] by simp
  then show ?thesis
    by (simp add: CacheManager_get_def CacheManager_set_def Let_def)
qed

lemma rows_of_key_after_set:
  "filter (\<lambda>r. cache_key r = generateCacheKey pf prefix params)
      (report_cache (CacheManager_set pf db prefix params data ttl acct now))
     = [\<lparr>rowid = autoincrement db + 1, cache_key = generateCacheKey pf prefix params,
         account_id = acct, query_hash = md5hex pf (stringifyParams pf params),
         response_data = stringify pf data, created_at = now, expires_at = now + ttl\<rparr>]"
proof -
  let ?k = "generateCacheKey pf prefix params"
  let ?row = "\<lparr>rowid = autoincrement db + 1, cache_key = ?k, account_id = acct,
                query_hash = md5hex pf (stringifyParams pf params),
                response_data = stringify pf data,
                created_at = now, expires_at = now + ttl\<rparr>"
  have "filter (\<lambda>r. cache_key r = ?k) (filter (\<lambda>r. cache_key r \<noteq> ?k) (report_cache db) @ [?row])
          = [?row]"
    using filter_after_replace [of ?k "report_cache db" ?row] by simp
  then show ?thesis
    by (simp add: CacheManager_set_def Let_def)
qed

lemma get_usable:
  "(CacheManager_get pf db prefix params now \<noteq> None) =
     (case find (\<lambda>r. cache_key r = generateCacheKey pf prefix params) (report_cache db) of
        None \<Rightarrow> False | Some row \<Rightarrow> now < expires_at row)"
  by (simp add: CacheManager_get_def Let_def split: option.splits)


text \<open>
  Claim C1. After \<open>set(prefix, params, R, ttl, acct)\<close> at time \<open>now\<close> the table holds one
  row for the key, with \<open>created_at = now\<close> and \<open>expires_at = now + ttl\<close>; a
  \<open>get(prefix, params)\<close> at any time \<open>now'\<close> returns \<open>R\<close> when \<open>now' < now + ttl\<close> and
  nothing when \<open>now' \<ge> now + ttl\<close>. In any table, \<open>get\<close> returns a payload exactly when
  the row of the key has \<open>now' < expires_at\<close>. \<open>R\<close> is a payload that \<open>JSON.parse\<close> reads
  back from its \<open>JSON.stringify\<close> text.
\<close>

theorem C1_get_after_set:
  assumes "parse pf (stringify pf R) = R"
  shows "CacheManager_get pf (CacheManager_set pf db prefix params R ttl acct now) prefix params now'
           = (if now' < now + ttl then Some R else None)
       \<and> map created_at (filter (\<lambda>r. cache_key r = generateCacheKey pf prefix params)
            (report_cache (CacheManager_set pf db prefix params R ttl acct now))) = [now]
       \<and> map expires_at (filter (\<lambda>r. cache_key r = generateCacheKey pf prefix params)
            (report_cache (CacheManager_set pf db prefix params R ttl acct now))) = [now + ttl]
       \<and> (CacheManager_get pf db' prefix params now' \<noteq> None) =
            (case find (\<lambda>r. cache_key r = generateCacheKey pf prefix params) (report_cache db') of
               None \<Rightarrow> False | Some row \<Rightarrow> now' < expires_at row)"
proof (intro conjI)
  show "CacheManager_get pf (CacheManager_set pf db prefix params R ttl acct now) prefix params now'
          = (if now' < now + ttl then Some R else None)"
    using assms by (simp add: get_after_set)
qed (simp_all only: get_usable rows_of_key_after_set, simp_all)

text \<open>The theorem at a payload stored for one hour at time 1000: read one millisecond
  before the expiry and at the expiry.\<close>

theorem C1_get_after_set_witness:
  "parse text_platform (stringify text_platform ''[1,2]'') = ''[1,2]''
   \<and> CacheManager_get text_platform
        (CacheManager_set text_platform initSchema ''sites'' ''{}'' ''[1,2]'' 3600000 ''pub-1'' 1000)
        ''sites'' ''{}'' 3600999 = Some ''[1,2]''
   \<and> CacheManager_get text_platform
        (CacheManager_set text_platform initSchema ''sites'' ''{}'' ''[1,2]'' 3600000 ''pub-1'' 1000)
        ''sites'' ''{}'' 3601000 = None"
proof -
  have h: "parse text_platform (stringify text_platform ''[1,2]'') = ''[1,2]''"
    by (simp add: text_platform_def)
  show ?thesis
    using h C1_get_after_set [OF h, of initSchema "''sites''" "''{}''" 3600000 "''pub-1''" 1000 3600999]
      C1_get_after_set [OF h, of initSchema "''sites''" "''{}''" 3600000 "''pub-1''" 1000 3601000]
    by simp
qed

text \<open>
  Claim C8. Two successive \<open>set\<close> calls for the same prefix and parameters, with any
  payloads, TTLs, accounts and times, leave exactly one row for the key; it holds the
  text and the expiry of the second call, and a \<open>get\<close> returns the second payload while
  \<open>now < t2 + ttl2\<close> and nothing afterwards, so the first payload is never returned.
\<close>

theorem C8_upsert:
  assumes "parse pf (stringify pf R2) = R2"
  shows "length (filter (\<lambda>r. cache_key r = generateCacheKey pf prefix params)
           (report_cache (CacheManager_set pf (CacheManager_set pf db prefix params R1 ttl1 acct1 t1)
              prefix params R2 ttl2 acct2 t2))) = 1
       \<and> map response_data (filter (\<lambda>r. cache_key r = generateCacheKey pf prefix params)
           (report_cache (CacheManager_set pf (CacheManager_set pf db prefix params R1 ttl1 acct1 t1)
              prefix params R2 ttl2 acct2 t2))) = [stringify pf R2]
       \<and> map expires_at (filter (\<lambda>r. cache_key r = generateCacheKey pf prefix params)
           (report_cache (CacheManager_set pf (CacheManager_set pf db prefix params R1 ttl1 acct1 t1)
              prefix params R2 ttl2 acct2 t2))) = [t2 + ttl2]
       \<and> CacheManager_get pf (CacheManager_set pf (CacheManager_set pf db prefix params R1 ttl1 acct1 t1)
              prefix params R2 ttl2 acct2 t2) prefix params now
           = (if now < t2 + ttl2 then Some R2 else None)"
  using assms by (simp add: get_after_set rows_of_key_after_set)

text \<open>The theorem at a 24 hour entry overwritten by a 5 minute entry.\<close>

theorem C8_upsert_witness:
  "parse text_platform (stringify text_platform ''second'') = ''second''
   \<and> length (filter (\<lambda>r. cache_key r = generateCacheKey text_platform ''report'' ''{q}'')
        (report_cache (CacheManager_set text_platform
           (CacheManager_set text_platform initSchema ''report'' ''{q}'' ''first'' 86400000 ''pub-1'' 1000)
           ''report'' ''{q}'' ''second'' 300000 ''pub-1'' 2000))) = 1
   \<and> CacheManager_get text_platform (CacheManager_set text_platform
           (CacheManager_set text_platform initSchema ''report'' ''{q}'' ''first'' 86400000 ''pub-1'' 1000)
           ''report'' ''{q}'' ''second'' 300000 ''pub-1'' 2000) ''report'' ''{q}'' 301999 = Some ''second''
   \<and> CacheManager_get text_platform (CacheManager_set text_platform
           (CacheManager_set text_platform initSchema ''report'' ''{q}'' ''first'' 86400000 ''pub-1'' 1000)
           ''report'' ''{q}'' ''second'' 300000 ''pub-1'' 2000) ''report'' ''{q}'' 302000 = None"
proof -
  have h: "parse text_platform (stringify text_platform ''second'') = ''second''"
    by (simp add: text_platform_def)
  show ?thesis
    using h C8_upsert [OF h, of "''report''" "''{q}''" initSchema "''first''" 86400000 "''pub-1''" 1000
        300000 "''pub-1''" 2000 301999]
      C8_upsert [OF h, of "''report''" "''{q}''" initSchema "''first''" 86400000 "''pub-1''" 1000
        300000 "''pub-1''" 2000 302000]
    by simp
qed



section \<open>Properties of the TTL policy selector\<close>





text \<open>
  The instant 2024-01-01T19:00:00Z, in a process on UTC and in a process ten hours east
  of it, where the local calendar already shows 2024-01-02.
\<close>

lemma today_example: "today 1704135600000 = ''2024-01-01''"
  by code_simp

lemma yesterdayStr_example_utc: "yesterdayStr (fixedOffset 0) 1704135600000 = ''2023-12-31''"
  by code_simp



lemma helper_dates_example:
  "get7DaysAgo (fixedOffset 0) 1704135600000 = ''2023-12-25''"
  "getYesterday (fixedOffset 0) 1704135600000 = ''2023-12-31''"
  by code_simp+

lemma ttl_values:
  "TODAY_EARNINGS = 300000" "YESTERDAY_EARNINGS = 3600000" "HISTORICAL_REPORT = 86400000"
  by (simp_all add: TODAY_EARNINGS_def YESTERDAY_EARNINGS_def HISTORICAL_REPORT_def)




text \<open>
  Claim C3 as stated fails twice. On UTC at 2024-01-01T19:00:00Z the range from seven days
  ago (2023-12-25) to yesterday (2023-12-31) gets the YESTERDAY TTL, not the HISTORICAL
  one; and a range that starts today and ends yesterday gets the TODAY TTL, not the
  YESTERDAY one.
\<close>

theorem C3_scenarios_counterexample:
  "get7DaysAgo (fixedOffset 0) 1704135600000 = ''2023-12-25''
   \<and> getYesterday (fixedOffset 0) 1704135600000 = ''2023-12-31''
   \<and> getReportTTL (fixedOffset 0) 1704135600000 ''2023-12-25'' ''2023-12-31'' = YESTERDAY_EARNINGS
   \<and> YESTERDAY_EARNINGS \<noteq> HISTORICAL_REPORT
   \<and> today 1704135600000 = ''2024-01-01''
   \<and> getReportTTL (fixedOffset 0) 1704135600000 ''2024-01-01'' ''2023-12-31'' = TODAY_EARNINGS
   \<and> TODAY_EARNINGS \<noteq> YESTERDAY_EARNINGS"
  by (simp add: getReportTTL_def today_example yesterdayStr_example_utc helper_dates_example
      ttl_values)

text \<open>
  Claim C3, amended. The selector returns the TODAY TTL for (today, today) and for every
  range that starts today; it returns the YESTERDAY TTL for every range that ends
  yesterday and does not start today, the range from seven days ago to yesterday among
  them, provided yesterday's string differs from today's.
\<close>

theorem C3_scenarios:
  "getReportTTL tz now (today now) (today now) = TODAY_EARNINGS
   \<and> (start_date \<noteq> today now \<and> yesterdayStr tz now \<noteq> today now \<longrightarrow>
        getReportTTL tz now start_date (yesterdayStr tz now) = YESTERDAY_EARNINGS)
   \<and> getReportTTL tz now (today now) end_date = TODAY_EARNINGS"
  by (simp add: getReportTTL_def)

text \<open>The theorem on UTC at 2024-01-01T19:00:00Z, for the range from seven days ago to
  yesterday.\<close>

theorem C3_scenarios_witness:
  "get7DaysAgo (fixedOffset 0) 1704135600000 \<noteq> today 1704135600000
   \<and> yesterdayStr (fixedOffset 0) 1704135600000 \<noteq> today 1704135600000
   \<and> getReportTTL (fixedOffset 0) 1704135600000 (get7DaysAgo (fixedOffset 0) 1704135600000)
        (yesterdayStr (fixedOffset 0) 1704135600000) = YESTERDAY_EARNINGS
   \<and> getReportTTL (fixedOffset 0) 1704135600000 (today 1704135600000) (today 1704135600000)
        = TODAY_EARNINGS"
proof -
  have h: "get7DaysAgo (fixedOffset 0) 1704135600000 \<noteq> today 1704135600000
           \<and> yesterdayStr (fixedOffset 0) 1704135600000 \<noteq> today 1704135600000"
    by (simp add: today_example yesterdayStr_example_utc helper_dates_example)
  show ?thesis
    using h C3_scenarios [of "fixedOffset 0" 1704135600000
        "get7DaysAgo (fixedOffset 0) 1704135600000" "[]"]
    by simp
qed

section \<open>Properties of the request throttle\<close>

lemma throttle_under_quota:
  assumes "length window < MAX_REQUESTS_PER_MINUTE" and "list_all (\<lambda>t. now - 60000 < t) window"
  shows "throttle window now late = (window @ [now], now)"
proof -
  have "filter (\<lambda>ts. now - 60000 < ts) window = window"
    using assms(2) by (simp add: list_all_iff)
  then show ?thesis
    using assms(1) by (simp add: throttle_def waitTime_def Let_def)
qed

lemma throttle_calls_no_wait:
  "length window + length calls \<le> MAX_REQUESTS_PER_MINUTE \<Longrightarrow>
   list_all (\<lambda>(now, late). list_all (\<lambda>t. now - 60000 < t) (window @ map fst calls)) calls \<Longrightarrow>
   throttle_calls window calls = window @ map fst calls"
proof (induction calls arbitrary: window)
  case Nil
  then show ?case by simp
next
  case (Cons c calls)
  obtain now late where c: "c = (now, late)" by (cases c)
  have len: "length window < MAX_REQUESTS_PER_MINUTE"
    using Cons.prems(1) by simp
  have fresh: "list_all (\<lambda>t. now - 60000 < t) window"
    using Cons.prems(2) c by simp
  have step: "throttle window now late = (window @ [now], now)"
    using throttle_under_quota [OF len fresh] .
  have "throttle_calls (window @ [now]) calls = (window @ [now]) @ map fst calls"
  proof (rule Cons.IH)
    show "length (window @ [now]) + length calls \<le> MAX_REQUESTS_PER_MINUTE"
      using Cons.prems(1) by simp
    show "list_all (\<lambda>(n, l). list_all (\<lambda>t. n - 60000 < t) ((window @ [now]) @ map fst calls)) calls"
      using Cons.prems(2) c by (simp add: list_all_iff)
  qed
  then show ?case
    using step c by simp
qed

lemma throttle_calls_append:
  "throttle_calls window (xs @ ys) = throttle_calls (throttle_calls window xs) ys"
  by (induction xs arbitrary: window) auto

lemma throttle_at_quota:
  assumes "length window = MAX_REQUESTS_PER_MINUTE"
    and "list_all (\<lambda>t. now - 60000 < t) window"
  shows "throttle window now late
           = (window @ [hd window + 60000 + 100 + late], hd window + 60000 + 100 + late)"
proof -
  have keep: "filter (\<lambda>ts. now - 60000 < ts) window = window"
    using assms(2) by (simp add: list_all_iff)
  have ne: "window \<noteq> []"
    using assms(1) by (auto simp: MAX_REQUESTS_PER_MINUTE_def)
  then have first: "window ! 0 = hd window" "hd window \<in> set window"
    by (simp_all add: hd_conv_nth)
  then have "now - 60000 < hd window"
    using assms(2) by (simp add: list_all_iff)
  then show ?thesis
    using assms(1) first(1) by (simp add: throttle_def waitTime_def Let_def keep)
qed

text \<open>
  Claim C4. A call of \<open>throttle\<close> entered at time \<open>t\<close> keeps the timestamps younger than
  60,000 ms; if at least 100 remain and \<open>wait = first + 60000 - t + 100\<close> is positive it
  sleeps for \<open>wait\<close>, and in every case it appends the reading of the clock when it goes on
  (\<open>t\<close> when it did not sleep) and returns: no branch rejects. For 101 calls made one after
  the other on an empty window, the first 100 within less than 60,000 ms of the first
  timestamp and the 101st entered at \<open>now\<close> in the same span, the first 100 are admitted
  at once and the 101st is admitted at the first timestamp plus 60,100 ms plus the
  lateness of its timer, when the first timestamp is at least 60,000 ms old.
\<close>

theorem C4_throttle:
  assumes "length calls = 100"
    and "list_all (\<lambda>t. fst (hd calls) \<le> t \<and> t \<le> now) (map fst calls)"
    and "now < fst (hd calls) + 60000"
    and "0 \<le> late"
  shows "throttle window t l =
           (let pruned = filter (\<lambda>ts. t - 60000 < ts) window;
                resumed = (if 100 \<le> length pruned \<and> 0 < pruned ! 0 + 60000 - t + 100
                           then t + (pruned ! 0 + 60000 - t + 100) + l else t)
            in (pruned @ [resumed], resumed))
       \<and> throttle_calls [] calls = map fst calls
       \<and> throttle_calls [] (calls @ [(now, late)])
           = map fst calls @ [fst (hd calls) + 60000 + 100 + late]
       \<and> fst (hd calls) + 60000 \<le> last (throttle_calls [] (calls @ [(now, late)]))"
proof -
  have a: "throttle window t l =
           (let pruned = filter (\<lambda>ts. t - 60000 < ts) window;
                resumed = (if 100 \<le> length pruned \<and> 0 < pruned ! 0 + 60000 - t + 100
                           then t + (pruned ! 0 + 60000 - t + 100) + l else t)
            in (pruned @ [resumed], resumed))"
    by (simp add: throttle_def waitTime_def Let_def MAX_REQUESTS_PER_MINUTE_def)
  have bounds: "fst (hd calls) \<le> fst c \<and> fst c \<le> now" if "c \<in> set calls" for c
    using assms(2) that by (simp add: list_all_iff)
  have "fst c - 60000 < fst c'" if "c \<in> set calls" "c' \<in> set calls" for c c'
    using bounds [OF that(1)] bounds [OF that(2)] assms(3) by linarith
  then have within: "list_all (\<lambda>(n, l). list_all (\<lambda>t. n - 60000 < t) ([] @ map fst calls)) calls"
    by (simp add: list_all_iff split_beta)
  have b: "throttle_calls [] calls = map fst calls"
    using throttle_calls_no_wait [of "[]" calls] within assms(1)
    by (simp add: MAX_REQUESTS_PER_MINUTE_def)
  have "now - 60000 < fst c" if "c \<in> set calls" for c
    using bounds [OF that] assms(3) by linarith
  then have fresh: "list_all (\<lambda>t. now - 60000 < t) (map fst calls)"
    by (simp add: list_all_iff)
  have ne: "calls \<noteq> []" using assms(1) by auto
  have c: "throttle_calls [] (calls @ [(now, late)])
             = map fst calls @ [fst (hd calls) + 60000 + 100 + late]"
    using throttle_at_quota [of "map fst calls" now late] fresh assms(1) ne
    by (simp add: throttle_calls_append b MAX_REQUESTS_PER_MINUTE_def hd_map)
  show ?thesis
    using a b c assms(4) by simp
qed

text \<open>The theorem at 100 calls ten milliseconds apart from time 0 and a 101st call at
  time 1000: it is admitted at 60100.\<close>

theorem C4_throttle_witness:
  "length (map (\<lambda>i. (int i * 10, 0 :: int)) [0..<100]) = 100
   \<and> list_all (\<lambda>t. fst (hd (map (\<lambda>i. (int i * 10, 0 :: int)) [0..<100])) \<le> t \<and> t \<le> 1000)
        (map fst (map (\<lambda>i. (int i * 10, 0 :: int)) [0..<100]))
   \<and> (1000 :: int) < fst (hd (map (\<lambda>i. (int i * 10, 0 :: int)) [0..<100])) + 60000
   \<and> last (throttle_calls [] (map (\<lambda>i. (int i * 10, 0)) [0..<100] @ [(1000, 0)])) = 60100"
proof -
  let ?calls = "map (\<lambda>i. (int i * 10, 0 :: int)) [0..<100]"
  have h1: "length ?calls = 100" by simp
  have hd: "fst (hd ?calls) = 0" by code_simp
  have h2: "list_all (\<lambda>t. fst (hd ?calls) \<le> t \<and> t \<le> 1000) (map fst ?calls)"
    unfolding hd by (simp add: list_all_iff)
  have h3: "(1000 :: int) < fst (hd ?calls) + 60000"
    unfolding hd by simp
  have h4: "(0 :: int) \<le> 0" by simp
  show ?thesis
    using h1 h2 h3 C4_throttle [OF h1 h2 h3 h4, of "[]" 0 0] hd
    by simp
qed

section \<open>Properties of the backoff executor\<close>

text \<open>An attempt ends the run when it succeeds, fails with a failure that is not
  retryable, or is the last one of the budget.\<close>

lemma withRetry_from_stop:
  assumes "k < retries"
    and "\<forall>e. operation k = Inl e \<longrightarrow> \<not> isRetryable e \<or> Suc k = retries"
  shows "withRetry_from operation random retries k lastError
           = \<lparr>outcome = operation k, delays = [], attempts = 1\<rparr>"
  using assms by (subst withRetry_from.simps) (auto split: sum.splits)

lemma withRetry_from_retry:
  assumes "operation a = Inl e" and "isRetryable e" and "Suc a < retries"
  shows "withRetry_from operation random retries a lastError
           = \<lparr>outcome = outcome (withRetry_from operation random retries (Suc a) (Some e)),
              delays = backoffDelay a (random a)
                         # delays (withRetry_from operation random retries (Suc a) (Some e)),
              attempts = Suc (attempts (withRetry_from operation random retries (Suc a) (Some e)))\<rparr>"
  using assms by (subst withRetry_from.simps) (simp add: Let_def)

lemma withRetry_from_until:
  assumes "a \<le> k" and "k < retries"
    and "\<And>j. a \<le> j \<Longrightarrow> j < k \<Longrightarrow> \<exists>e. operation j = Inl e \<and> isRetryable e"
    and "\<forall>e. operation k = Inl e \<longrightarrow> \<not> isRetryable e \<or> Suc k = retries"
  shows "withRetry_from operation random retries a lastError
           = \<lparr>outcome = operation k,
              delays = map (\<lambda>i. backoffDelay i (random i)) [a..<k],
              attempts = Suc (k - a)\<rparr>"
  using assms(1,3)
proof (induction "k - a" arbitrary: a lastError)
  case 0
  then have "a = k" by simp
  then show ?case
    using withRetry_from_stop [of k retries operation random lastError] assms(2,4) by simp
next
  case (Suc n)
  then have lt: "a < k" by simp
  obtain e where e: "operation a = Inl e" "isRetryable e"
    using Suc.prems(2) [of a] lt by auto
  have more: "Suc a < retries" using lt assms(2) by simp
  have rest: "withRetry_from operation random retries (Suc a) (Some e)
           = \<lparr>outcome = operation k,
              delays = map (\<lambda>i. backoffDelay i (random i)) [Suc a..<k],
              attempts = Suc (k - Suc a)\<rparr>"
  proof (rule Suc.hyps(1))
    show "n = k - Suc a" using Suc.hyps(2) by simp
    show "Suc a \<le> k" using lt by simp
    show "\<exists>e. operation j = Inl e \<and> isRetryable e" if "Suc a \<le> j" "j < k" for j
      using Suc.prems(2) [of j] that by simp
  qed
  show ?case
    using lt withRetry_from_retry [where operation = operation and a = a and e = e
        and retries = retries and random = random and lastError = lastError] e more
    by (simp add: rest upt_conv_Cons)
qed

text \<open>Every run within a positive budget ends at the first such attempt.\<close>

lemma withRetry_from_shape:
  assumes "a < retries"
  shows "\<exists>k. a \<le> k \<and> k < retries
           \<and> (\<forall>j. a \<le> j \<and> j < k \<longrightarrow> (\<exists>e. operation j = Inl e \<and> isRetryable e))
           \<and> (\<forall>e. operation k = Inl e \<longrightarrow> \<not> isRetryable e \<or> Suc k = retries)
           \<and> withRetry_from operation random retries a lastError
               = \<lparr>outcome = operation k,
                  delays = map (\<lambda>i. backoffDelay i (random i)) [a..<k],
                  attempts = Suc (k - a)\<rparr>"
proof -
  let ?stop = "\<lambda>k. a \<le> k \<and> k < retries \<and>
     (\<forall>e. operation k = Inl e \<longrightarrow> \<not> isRetryable e \<or> Suc k = retries)"
  have "?stop (retries - 1)"
    using assms by (auto split: sum.splits)
  then obtain k where k: "?stop k" and least: "\<And>j. j < k \<Longrightarrow> \<not> ?stop j"
    using exists_least_iff [of ?stop] by blast
  have before: "\<exists>e. operation j = Inl e \<and> isRetryable e" if "a \<le> j" "j < k" for j
    using least [OF that(2)] that k by (auto split: sum.splits)
  then have "withRetry_from operation random retries a lastError
             = \<lparr>outcome = operation k,
                delays = map (\<lambda>i. backoffDelay i (random i)) [a..<k],
                attempts = Suc (k - a)\<rparr>"
    using withRetry_from_until [of a k retries operation random lastError] k by blast
  then show ?thesis using k before by blast
qed

text \<open>Rounding to a double keeps a value between the whole numbers around it.\<close>

lemma round_ties_even_ge: "of_int m \<le> x \<Longrightarrow> m \<le> round_ties_even x"
proof -
  assume "of_int m \<le> x"
  then have "m \<le> \<lfloor>x\<rfloor>" by (simp add: le_floor_iff)
  then show ?thesis by (simp add: round_ties_even_def Let_def)
qed

lemma round_ties_even_le: "x \<le> of_int n \<Longrightarrow> round_ties_even x \<le> n"
proof -
  assume x: "x \<le> of_int n"
  have f: "\<lfloor>x\<rfloor> \<le> n" using floor_mono [OF x] by simp
  show ?thesis
  proof (cases "x = of_int \<lfloor>x\<rfloor>")
    case True
    then have "x - of_int \<lfloor>x\<rfloor> < 1 / 2" by simp
    then show ?thesis using f by (simp add: round_ties_even_def Let_def)
  next
    case False
    then have "of_int \<lfloor>x\<rfloor> < x" using of_int_floor_le [of x] by linarith
    then have "of_int \<lfloor>x\<rfloor> < (of_int n :: real)" using x by linarith
    then have "\<lfloor>x\<rfloor> < n" by simp
    then show ?thesis by (auto simp: round_ties_even_def Let_def)
  qed
qed

lemma scale_down_power: "\<exists>i. scale_down n (2 ^ j) x = 2 ^ i"
proof (induction n arbitrary: j)
  case 0
  show ?case by auto
next
  case (Suc n)
  have "\<exists>i. scale_down n (2 ^ Suc j) x = 2 ^ i" by (rule Suc.IH)
  then show ?case by auto
qed

lemma binary64_between:
  assumes "of_int a \<le> x" and "x \<le> of_int b" and "0 \<le> a" and "b < 2 ^ 53"
  shows "\<exists>v. binary64 x = Finite v \<and> of_int a \<le> v \<and> v \<le> of_int b"
proof -
  have small: "x < 2 ^ 53"
  proof -
    have "(of_int b :: real) < of_int (2 ^ 53)" using assms(4) by (simp only: of_int_less_iff)
    then show ?thesis using assms(2) by simp
  qed
  obtain i where p: "scale_down 1074 1 x = 2 ^ i"
    using scale_down_power [of 1074 0 x] by auto
  let ?r = "round_ties_even (x * 2 ^ i)"
  have lo: "a * 2 ^ i \<le> ?r"
  proof (rule round_ties_even_ge)
    show "of_int (a * 2 ^ i) \<le> x * 2 ^ i" using assms(1) by simp
  qed
  have hi: "?r \<le> b * 2 ^ i"
  proof (rule round_ties_even_le)
    show "x * 2 ^ i \<le> of_int (b * 2 ^ i)" using assms(2) by simp
  qed
  have "(of_int (a * 2 ^ i) :: real) \<le> of_int ?r" using lo by (simp only: of_int_le_iff)
  then have lo': "of_int a \<le> (of_int ?r :: real) / 2 ^ i"
    by (simp add: pos_le_divide_eq)
  have "(of_int ?r :: real) \<le> of_int (b * 2 ^ i)" using hi by (simp only: of_int_le_iff)
  then have hi': "(of_int ?r :: real) / 2 ^ i \<le> of_int b"
    by (simp add: pos_divide_le_eq)
  show ?thesis
    using small p lo' hi' by (simp add: binary64_def Let_def)
qed

lemma binary64_exact:
  assumes "0 \<le> n" and "n < 2 ^ 53"
  shows "binary64 (of_int n) = Finite (of_int n)"
  using binary64_between [of n "of_int n" n] assms by auto


lemma scale_down_stop:
  assumes "0 \<le> x" and "j \<le> i" and "i \<le> j + n" and "x * 2 ^ i < 2 ^ 53"
    and "2 ^ 53 \<le> x * 2 ^ Suc i \<or> i = j + n"
  shows "scale_down n (2 ^ j) x = 2 ^ i"
  using assms(2,3,5)
proof (induction n arbitrary: j)
  case 0
  then show ?case by simp
next
  case (Suc n)
  show ?case
  proof (cases "j = i")
    case True
    then have "2 ^ 53 \<le> x * 2 ^ Suc i" using Suc.prems(3) by simp
    then show ?thesis using True by simp
  next
    case False
    then have lt: "Suc j \<le> i" using Suc.prems(1) by simp
    have "(2::real) ^ Suc j \<le> 2 ^ i" using lt by (intro power_increasing) simp_all
    then have "x * 2 ^ Suc j \<le> x * 2 ^ i" using assms(1) by (intro mult_left_mono)
    then have go: "x * (2 * 2 ^ j) < 2 ^ 53" using assms(4) by simp
    have "scale_down n (2 ^ Suc j) x = 2 ^ i"
    proof (rule Suc.IH)
      show "Suc j \<le> i" by (rule lt)
      show "i \<le> Suc j + n" using Suc.prems(2) by simp
      show "2 ^ 53 \<le> x * 2 ^ Suc i \<or> i = Suc j + n" using Suc.prems(3) by simp
    qed
    then show ?thesis using go by simp
  qed
qed

lemma binary64_at:
  assumes "0 \<le> x" and "i \<le> 1074" and "x * 2 ^ i < 2 ^ 53"
    and "2 ^ 53 \<le> x * 2 ^ Suc i \<or> i = 1074"
  shows "binary64 x = Finite (of_int (round_ties_even (x * 2 ^ i)) / 2 ^ i)"
proof -
  have "x * 1 \<le> x * 2 ^ i" using assms(1) by (intro mult_left_mono) simp_all
  then have small: "x < 2 ^ 53" using assms(3) by simp
  have "scale_down 1074 (2 ^ 0) x = 2 ^ i"
    using scale_down_stop [of x 0 i 1074] assms by auto
  then show ?thesis using small by (simp add: binary64_def Let_def)
qed

lemma jitter_top: "binary64 ((1 - 1 / 2 ^ 52) * 1000) = Finite (1000 - 1 / 2 ^ 42)"
proof -
  have r: "round_ties_even (562949953421311875 / 64) = 8796093022207998"
    by (simp add: round_ties_even_def Let_def)
  show ?thesis
    using binary64_at [of "(1 - 1 / 2 ^ 52) * 1000" 43] by (simp add: r)
qed

lemma sum_top: "binary64 (2000 + (1000 - 1 / 2 ^ 42)) = Finite 3000"
proof -
  have r: "round_ties_even (13194139533311999 / 2) = 6597069766656000"
    by (simp add: round_ties_even_def Let_def)
  show ?thesis
    using binary64_at [of "2000 + (1000 - 1 / 2 ^ 42)" 41] by (simp add: r)
qed


lemma Math_min_le: "Math_min d m \<le> m"
  by (cases d) simp_all

lemma base_times_pow2:
  assumes "k \<le> 42"
  shows "times64 (Finite BASE_DELAY_MS) (Math_pow2 k) = Finite (1000 * 2 ^ k)"
    and "(1000 * 2 ^ k + 1000 :: int) < 2 ^ 53"
proof -
  have "(2::int) ^ k \<le> 2 ^ 42" using assms by (intro power_increasing) simp_all
  then have small: "(2::int) ^ k \<le> 4398046511104" by simp
  then show "(1000 * 2 ^ k + 1000 :: int) < 2 ^ 53" by simp
  have p: "binary64 (of_int (2 ^ k)) = Finite (of_int (2 ^ k))"
    using small by (intro binary64_exact) simp_all
  have b: "binary64 (of_int (1000 * 2 ^ k)) = Finite (of_int (1000 * 2 ^ k))"
    using small by (intro binary64_exact) simp_all
  show "times64 (Finite BASE_DELAY_MS) (Math_pow2 k) = Finite (1000 * 2 ^ k)"
    using p b by (simp add: Math_pow2_def BASE_DELAY_MS_def)
qed

lemma backoffDelay_jitter:
  assumes "0 \<le> r" and "r < 1" and "k \<le> 42"
  shows "\<exists>j. 0 \<le> j \<and> j \<le> 1000 \<and> backoffDelay k r = min 32000 (1000 * 2 ^ k + j)"
proof -
  obtain j0 where j0: "binary64 (r * 1000) = Finite j0" "0 \<le> j0" "j0 \<le> 1000"
    using binary64_between [of 0 "r * 1000" 1000] assms(1,2) by auto
  have fits: "(1000 * 2 ^ k + 1000 :: int) < 2 ^ 53"
    by (rule base_times_pow2(2) [OF assms(3)])
  obtain v where v: "binary64 (1000 * 2 ^ k + j0) = Finite v"
    "1000 * 2 ^ k \<le> v" "v \<le> 1000 * 2 ^ k + 1000"
    using binary64_between [of "1000 * 2 ^ k" "1000 * 2 ^ k + j0" "1000 * 2 ^ k + 1000"] j0(2,3) fits
    by auto
  have "backoffDelay k r = min v 32000"
    by (simp add: backoffDelay_def base_times_pow2(1) [OF assms(3)] j0(1) v(1) MAX_DELAY_MS_def)
  then have "backoffDelay k r = min 32000 (1000 * 2 ^ k + (v - 1000 * 2 ^ k))"
    by (simp add: min.commute)
  moreover have "0 \<le> v - 1000 * 2 ^ k" "v - 1000 * 2 ^ k \<le> 1000"
    using v(2,3) by simp_all
  ultimately show ?thesis by blast
qed

lemma backoffDelay_whole:
  assumes "r * 1000 = of_int n" and "0 \<le> n" and "n \<le> 1000" and "k \<le> 42"
  shows "backoffDelay k r = min (1000 * 2 ^ k + of_int n) 32000"
proof -
  have j: "binary64 (r * 1000) = Finite (of_int n)"
    unfolding assms(1) using assms(2,3) by (intro binary64_exact) simp_all
  have fits: "(1000 * 2 ^ k + 1000 :: int) < 2 ^ 53"
    by (rule base_times_pow2(2) [OF assms(4)])
  have "binary64 (of_int (1000 * 2 ^ k + n)) = Finite (of_int (1000 * 2 ^ k + n))"
    using fits assms(2,3) by (intro binary64_exact) simp_all
  then show ?thesis
    by (simp add: backoffDelay_def base_times_pow2(1) [OF assms(4)] j MAX_DELAY_MS_def)
qed

lemma backoffDelay_top: "backoffDelay 1 (1 - 1 / 2 ^ 52) = 3000"
  using base_times_pow2(1) [of 1] jitter_top sum_top
  by (simp add: backoffDelay_def MAX_DELAY_MS_def)

text \<open>
  Claim C5 as stated fails at the upper end of the jitter: the delay is computed in
  doubles, and for \<open>Math.random() = 1 - 2^-52\<close>, the largest value below 1 with 52
  fraction bits, the delay after the failure of attempt 1 is rounded to exactly 3000 ms,
  which is \<open>1000 * 2^1 + j\<close> only for \<open>j = 1000\<close>.
\<close>

theorem C5_jitter_counterexample:
  "(0 :: real) \<le> 1 - 1 / 2 ^ 52
   \<and> (1 - 1 / 2 ^ 52 :: real) < 1
   \<and> isRetryable err429
   \<and> delays (withRetry (\<lambda>k. Inl err429 :: api_error + unit) (\<lambda>k. 1 - 1 / 2 ^ 52) MAX_RETRIES) ! 1
       = 3000
   \<and> (3000 :: real) - 1000 * 2 ^ 1 = 1000"
proof -
  have r: "isRetryable err429"
    by (simp add: isRetryable_def isRateLimited_def err429_def)
  have "withRetry (\<lambda>k. Inl err429 :: api_error + unit) (\<lambda>k. 1 - 1 / 2 ^ 52) MAX_RETRIES
          = \<lparr>outcome = Inl err429,
             delays = map (\<lambda>i. backoffDelay i (1 - 1 / 2 ^ 52)) [0..<4],
             attempts = Suc (4 - 0)\<rparr>"
    unfolding withRetry_def
    by (rule withRetry_from_until) (simp_all add: r MAX_RETRIES_def)
  then have "delays (withRetry (\<lambda>k. Inl err429 :: api_error + unit) (\<lambda>k. 1 - 1 / 2 ^ 52)
                 MAX_RETRIES) ! 1 = backoffDelay 1 (1 - 1 / 2 ^ 52)"
    by (simp add: upt_rec)
  then show ?thesis
    using r backoffDelay_top by simp
qed

text \<open>
  Claim C5, amended. With the default budget of 5 attempts and random values in \<open>[0, 1)\<close>:
  the operation is invoked at most 5 times, once more than there are delays; the \<open>k\<close>-th
  delay follows a retryable failure of attempt \<open>k\<close> with \<open>k < 4\<close> and equals
  \<open>min(32000, 1000 * 2^k + j)\<close> for a jitter \<open>0 \<le> j \<le> 1000\<close>, the upper end being
  reached by rounding; every retryable failure of an attempt \<open>n < 4\<close> reached through
  retryable failures is followed by such a delay; when all 5 attempts fail with retryable
  failures the failure of the fifth attempt is what the caller gets; and no delay, after
  whatever attempt, exceeds 32,000 ms.
\<close>

theorem C5_backoff:
  assumes "\<forall>k. 0 \<le> random k \<and> random k < 1"
  shows "attempts (withRetry operation random MAX_RETRIES) \<le> 5
       \<and> Suc (length (delays (withRetry operation random MAX_RETRIES)))
           = attempts (withRetry operation random MAX_RETRIES)
       \<and> (\<forall>k < length (delays (withRetry operation random MAX_RETRIES)).
            (\<exists>e. operation k = Inl e \<and> isRetryable e) \<and> k < 4 \<and>
            (\<exists>j. 0 \<le> j \<and> j \<le> 1000 \<and>
               delays (withRetry operation random MAX_RETRIES) ! k = min 32000 (1000 * 2 ^ k + j)))
       \<and> ((\<forall>i \<le> n. \<exists>e. operation i = Inl e \<and> isRetryable e) \<and> n < 4
            \<longrightarrow> n < length (delays (withRetry operation random MAX_RETRIES)))
       \<and> ((\<forall>i < 5. \<exists>e. operation i = Inl e \<and> isRetryable e)
            \<longrightarrow> outcome (withRetry operation random MAX_RETRIES) = operation 4
              \<and> attempts (withRetry operation random MAX_RETRIES) = 5)
       \<and> backoffDelay n (random n) \<le> 32000"
proof -
  let ?run = "withRetry operation random MAX_RETRIES"
  have budget: "MAX_RETRIES = 5" by (simp add: MAX_RETRIES_def)
  have "\<exists>k. 0 \<le> k \<and> k < 5
           \<and> (\<forall>j. 0 \<le> j \<and> j < k \<longrightarrow> (\<exists>e. operation j = Inl e \<and> isRetryable e))
           \<and> (\<forall>e. operation k = Inl e \<longrightarrow> \<not> isRetryable e \<or> Suc k = 5)
           \<and> withRetry_from operation random 5 0 None
               = \<lparr>outcome = operation k,
                  delays = map (\<lambda>i. backoffDelay i (random i)) [0..<k],
                  attempts = Suc (k - 0)\<rparr>"
    using withRetry_from_shape [of 0 MAX_RETRIES operation random None]
    unfolding budget by simp
  then obtain k where k: "k < 5"
    and before: "\<And>j. j < k \<Longrightarrow> \<exists>e. operation j = Inl e \<and> isRetryable e"
    and stop: "\<forall>e. operation k = Inl e \<longrightarrow> \<not> isRetryable e \<or> k = 4"
    and run: "?run = \<lparr>outcome = operation k,
                      delays = map (\<lambda>i. backoffDelay i (random i)) [0..<k],
                      attempts = Suc k\<rparr>"
    unfolding withRetry_def budget by auto
  have a: "attempts ?run \<le> 5" using k run by simp
  have b: "Suc (length (delays ?run)) = attempts ?run" using run by simp
  have c: "\<forall>i < length (delays ?run).
            (\<exists>e. operation i = Inl e \<and> isRetryable e) \<and> i < 4 \<and>
            (\<exists>j. 0 \<le> j \<and> j \<le> 1000 \<and> delays ?run ! i = min 32000 (1000 * 2 ^ i + j))"
  proof (intro allI impI)
    fix i assume "i < length (delays ?run)"
    then have ik: "i < k" using run by simp
    have "delays ?run ! i = backoffDelay i (random i)"
      using ik run by simp
    moreover have "i < 4" using ik k by simp
    moreover have "i \<le> 42" using ik k by simp
    ultimately show "(\<exists>e. operation i = Inl e \<and> isRetryable e) \<and> i < 4 \<and>
            (\<exists>j. 0 \<le> j \<and> j \<le> 1000 \<and> delays ?run ! i = min 32000 (1000 * 2 ^ i + j))"
      using before [OF ik] backoffDelay_jitter [of "random i" i] assms by simp
  qed
  have d: "n < length (delays ?run)"
    if all: "\<forall>i \<le> n. \<exists>e. operation i = Inl e \<and> isRetryable e" and n: "n < 4"
  proof (rule ccontr)
    assume "\<not> n < length (delays ?run)"
    then have kn: "k \<le> n" using run by simp
    then obtain e where "operation k = Inl e" "isRetryable e" using all by blast
    then have "k = 4" using stop by simp
    then show False using kn n by simp
  qed
  have e: "outcome ?run = operation 4 \<and> attempts ?run = 5"
    if all: "\<forall>i < 5. \<exists>e. operation i = Inl e \<and> isRetryable e"
  proof -
    obtain e where "operation k = Inl e" "isRetryable e" using all k by blast
    then have "k = 4" using stop by simp
    then show ?thesis using run by simp
  qed
  have f: "backoffDelay n (random n) \<le> 32000"
    using Math_min_le [of _ MAX_DELAY_MS] by (simp add: backoffDelay_def MAX_DELAY_MS_def)
  show ?thesis
    using a b c d e f by blast
qed

text \<open>The theorem at an operation that always fails with status 429 and random values
  1/2: five attempts, delays of 1500, 2500, 4500 and 8500 ms, the 429 failure thrown.\<close>

theorem C5_backoff_witness:
  "(\<forall>k::nat. (0::real) \<le> 1 / 2 \<and> (1::real) / 2 < 1)
   \<and> attempts (withRetry (\<lambda>k. Inl err429 :: api_error + unit) (\<lambda>k. 1 / 2) MAX_RETRIES) = 5
   \<and> delays (withRetry (\<lambda>k. Inl err429 :: api_error + unit) (\<lambda>k. 1 / 2) MAX_RETRIES)
       = [1500, 2500, 4500, 8500]
   \<and> outcome (withRetry (\<lambda>k. Inl err429 :: api_error + unit) (\<lambda>k. 1 / 2) MAX_RETRIES) = Inl err429"
proof -
  have h: "\<forall>k::nat. 0 \<le> (\<lambda>k. 1 / 2 :: real) k \<and> (\<lambda>k. 1 / 2 :: real) k < 1" by simp
  have r: "isRetryable err429"
    by (simp add: isRetryable_def isRateLimited_def err429_def)
  have half: "backoffDelay k (1 / 2) = min (1000 * 2 ^ k + 500) 32000" if "k \<le> 42" for k
    using backoffDelay_whole [of "1 / 2" 500 k] that by simp
  have "withRetry (\<lambda>k. Inl err429 :: api_error + unit) (\<lambda>k. 1 / 2) MAX_RETRIES
          = \<lparr>outcome = Inl err429,
             delays = map (\<lambda>i. backoffDelay i (1 / 2)) [0..<4],
             attempts = Suc (4 - 0)\<rparr>"
    unfolding withRetry_def
    by (rule withRetry_from_until) (simp_all add: r MAX_RETRIES_def)
  then have ds: "delays (withRetry (\<lambda>k. Inl err429 :: api_error + unit) (\<lambda>k. 1 / 2) MAX_RETRIES)
       = [1500, 2500, 4500, 8500]"
    by (simp add: upt_rec half)
  show ?thesis
    using C5_backoff [OF h, of "\<lambda>k. Inl err429 :: api_error + unit" 0] r ds
    by simp
qed








section \<open>Properties of the API facade\<close>

lemma rateLimiter_throttle_frame:
  "cache (rateLimiter_throttle w) = cache w"
  "sent (rateLimiter_throttle w) = sent w"
  "drawn (rateLimiter_throttle w) = drawn w"
  by (simp_all add: rateLimiter_throttle_def Let_def)

lemma rateLimiter_throttle_cache:
  "rateLimiter_throttle (w\<lparr>cache := c\<rparr>) = (rateLimiter_throttle w)\<lparr>cache := c\<rparr>"
  by (simp add: rateLimiter_throttle_def Let_def)

lemma rateLimiter_throttle_window:
  "length (requestTimestamps (rateLimiter_throttle w))
     = Suc (length (filter (\<lambda>ts. clock w - 60000 < ts) (requestTimestamps w)))"
  by (simp add: rateLimiter_throttle_def throttle_def Let_def)

lemma withRetry_upstream_frame:
  "cache (snd (withRetry_upstream c api req w)) = cache w"
  "requestTimestamps (snd (withRetry_upstream c api req w)) = requestTimestamps w"
  by (simp_all add: withRetry_upstream_def Let_def)

lemma withRetry_upstream_cache:
  "withRetry_upstream c api req (w\<lparr>cache := ch\<rparr>)
     = (fst (withRetry_upstream c api req w), (snd (withRetry_upstream c api req w))\<lparr>cache := ch\<rparr>)"
  by (simp add: withRetry_upstream_def Let_def)

lemma withRetry_attempts_positive:
  "0 < attempts (withRetry operation random MAX_RETRIES)"
  using withRetry_from_shape [of 0 MAX_RETRIES operation random None]
  by (auto simp: withRetry_def MAX_RETRIES_def)

lemma withRetry_upstream_sent:
  "length (sent w) < length (sent (snd (withRetry_upstream c api req w)))"
  "last (sent (snd (withRetry_upstream c api req w))) = req"
  using withRetry_attempts_positive
    [of "\<lambda>k. api (length (sent w) + k)" "\<lambda>k. math_random c (drawn w + k)"]
  by (simp_all add: withRetry_upstream_def Let_def)

lemma resolveAccountId_given:
  assumes "truthy explicitId \<or> truthy (defaultAccountId c)"
  shows "resolveAccountId c explicitId w
           = (Inr (with_prefix (the (if truthy explicitId then explicitId else defaultAccountId c))), w)"
  using assms by (auto simp: resolveAccountId_def)

lemma generateCsvReport_cache:
  "cache (snd (generateCsvReport c query w)) = cache (snd (resolveAccountId c (accountId query) w))"
  by (simp add: generateCsvReport_def Let_def withRetry_upstream_frame rateLimiter_throttle_frame
      split: sum.splits)

lemma generateCsvReport_any_cache:
  assumes "truthy (accountId query) \<or> truthy (defaultAccountId c)"
  shows "generateCsvReport c query (w\<lparr>cache := ch\<rparr>)
           = (fst (generateCsvReport c query w), (snd (generateCsvReport c query w))\<lparr>cache := ch\<rparr>)"
  by (simp add: generateCsvReport_def Let_def resolveAccountId_given [OF assms]
      rateLimiter_throttle_cache withRetry_upstream_cache)

lemma generateCsvReport_network:
  assumes "fst (resolveAccountId c (accountId query) w) = Inr resolvedId"
  shows "length (sent (snd (resolveAccountId c (accountId query) w)))
           < length (sent (snd (generateCsvReport c query w)))"
    and "last (sent (snd (generateCsvReport c query w))) = ReportsGenerateCsv resolvedId query"
    and "length (requestTimestamps (snd (generateCsvReport c query w)))
           = Suc (length (filter (\<lambda>ts. clock (snd (resolveAccountId c (accountId query) w)) - 60000 < ts)
                   (requestTimestamps (snd (resolveAccountId c (accountId query) w)))))"
proof -
  let ?w0 = "snd (resolveAccountId c (accountId query) w)"
  have run: "generateCsvReport c query w
               = withRetry_upstream c (\<lambda>n. reports_generateCsv c n resolvedId query)
                   (ReportsGenerateCsv resolvedId query) (rateLimiter_throttle ?w0)"
    using assms by (simp add: generateCsvReport_def Let_def)
  show "length (sent ?w0) < length (sent (snd (generateCsvReport c query w)))"
    unfolding run
    using withRetry_upstream_sent(1) [where w = "rateLimiter_throttle ?w0" and c = c
        and api = "\<lambda>n. reports_generateCsv c n resolvedId query"
        and req = "ReportsGenerateCsv resolvedId query"]
    by (simp add: rateLimiter_throttle_frame)
  show "last (sent (snd (generateCsvReport c query w))) = ReportsGenerateCsv resolvedId query"
    unfolding run by (rule withRetry_upstream_sent(2))
  show "length (requestTimestamps (snd (generateCsvReport c query w)))
           = Suc (length (filter (\<lambda>ts. clock ?w0 - 60000 < ts) (requestTimestamps ?w0)))"
    unfolding run by (simp add: withRetry_upstream_frame rateLimiter_throttle_window)
qed

lemma withRetry_upstream_shape:
  "\<exists>k<5. fst (withRetry_upstream c api req w) = api (length (sent w) + k)
     \<and> sent (snd (withRetry_upstream c api req w)) = sent w @ replicate (Suc k) req
     \<and> (\<forall>j<k. \<exists>e. api (length (sent w) + j) = Inl e \<and> isRetryable e)
     \<and> (\<forall>e. api (length (sent w) + k) = Inl e \<longrightarrow> \<not> isRetryable e \<or> k = 4)"
proof -
  let ?op = "\<lambda>k. api (length (sent w) + k)"
  let ?rnd = "\<lambda>k. math_random c (drawn w + k)"
  have "\<exists>k. 0 \<le> k \<and> k < 5
           \<and> (\<forall>j. 0 \<le> j \<and> j < k \<longrightarrow> (\<exists>e. ?op j = Inl e \<and> isRetryable e))
           \<and> (\<forall>e. ?op k = Inl e \<longrightarrow> \<not> isRetryable e \<or> Suc k = 5)
           \<and> withRetry_from ?op ?rnd 5 0 None
               = \<lparr>outcome = ?op k,
                  delays = map (\<lambda>i. backoffDelay i (?rnd i)) [0..<k],
                  attempts = Suc (k - 0)\<rparr>"
    using withRetry_from_shape [of 0 5 ?op ?rnd None] by simp
  then obtain k where k: "k < 5"
    and before: "\<forall>j<k. \<exists>e. ?op j = Inl e \<and> isRetryable e"
    and stop: "\<forall>e. ?op k = Inl e \<longrightarrow> \<not> isRetryable e \<or> k = 4"
    and run: "withRetry ?op ?rnd MAX_RETRIES
                = \<lparr>outcome = ?op k,
                   delays = map (\<lambda>i. backoffDelay i (?rnd i)) [0..<k],
                   attempts = Suc k\<rparr>"
    unfolding withRetry_def MAX_RETRIES_def by auto
  have "fst (withRetry_upstream c api req w) = ?op k"
    and "sent (snd (withRetry_upstream c api req w)) = sent w @ replicate (Suc k) req"
    using run by (simp_all add: withRetry_upstream_def Let_def)
  then show ?thesis using k before stop by blast
qed

lemma generateCsvReport_result:
  assumes "fst (resolveAccountId c (accountId query) w) = Inr resolvedId"
  shows "\<exists>k<5.
      fst (generateCsvReport c query w)
        = reports_generateCsv c (length (sent (snd (resolveAccountId c (accountId query) w))) + k)
            resolvedId query
      \<and> sent (snd (generateCsvReport c query w))
        = sent (snd (resolveAccountId c (accountId query) w))
            @ replicate (Suc k) (ReportsGenerateCsv resolvedId query)
      \<and> (\<forall>j<k. \<exists>e.
            reports_generateCsv c (length (sent (snd (resolveAccountId c (accountId query) w))) + j)
              resolvedId query = Inl e \<and> isRetryable e)
      \<and> (\<forall>e.
            reports_generateCsv c (length (sent (snd (resolveAccountId c (accountId query) w))) + k)
              resolvedId query = Inl e \<longrightarrow> \<not> isRetryable e \<or> k = 4)"
proof -
  let ?w0 = "snd (resolveAccountId c (accountId query) w)"
  have run: "generateCsvReport c query w
               = withRetry_upstream c (\<lambda>n. reports_generateCsv c n resolvedId query)
                   (ReportsGenerateCsv resolvedId query) (rateLimiter_throttle ?w0)"
    using assms by (simp add: generateCsvReport_def Let_def)
  show ?thesis
    unfolding run
    using withRetry_upstream_shape [where c = c and w = "rateLimiter_throttle ?w0"
        and api = "\<lambda>n. reports_generateCsv c n resolvedId query"
        and req = "ReportsGenerateCsv resolvedId query"]
    by (simp add: rateLimiter_throttle_frame)
qed

lemma generateCsvReport_unresolved:
  assumes "fst (resolveAccountId c (accountId query) w) = Inl e"
  shows "generateCsvReport c query w = (Inl e, snd (resolveAccountId c (accountId query) w))"
  using assms by (simp add: generateCsvReport_def Let_def)

text \<open>
  Claim C7 as stated fails: the CSV operation has no cache read and no cache write. A
  successful export on an empty cache leaves the cache empty, and the same export
  repeated at once is throttled again and sent upstream again.
\<close>

theorem C7_csv_not_cached_counterexample:
  "fst (generateCsvReport (example_client []) (example_query (Some ''pub-1'')) (fresh_world 1000))
     = Inr ''DATE,ESTIMATED_EARNINGS''
   \<and> report_cache (cache (snd (generateCsvReport (example_client [])
        (example_query (Some ''pub-1'')) (fresh_world 1000)))) = []
   \<and> fst (generateCsvReport (example_client []) (example_query (Some ''pub-1''))
        (snd (generateCsvReport (example_client []) (example_query (Some ''pub-1'')) (fresh_world 1000))))
     = Inr ''DATE,ESTIMATED_EARNINGS''
   \<and> sent (snd (generateCsvReport (example_client []) (example_query (Some ''pub-1''))
        (snd (generateCsvReport (example_client []) (example_query (Some ''pub-1'')) (fresh_world 1000)))))
     = [ReportsGenerateCsv ''accounts/pub-1'' (example_query (Some ''pub-1'')),
        ReportsGenerateCsv ''accounts/pub-1'' (example_query (Some ''pub-1''))]
   \<and> requestTimestamps (snd (generateCsvReport (example_client []) (example_query (Some ''pub-1''))
        (snd (generateCsvReport (example_client []) (example_query (Some ''pub-1'')) (fresh_world 1000)))))
     = [1000, 1000]"
  by code_simp

text \<open>
  Claim C7, amended. The CSV report operation does not use the cache for the report: the
  cache after the operation is the cache after the resolution of the account, and with an
  explicit or default account the result and every effect are the same whatever the cache
  holds. When the account cannot be resolved the failure of the resolution is returned
  and nothing else happens. When it is resolved the operation is throttled (one timestamp
  is appended to the pruned window) and the CSV request is sent upstream, through the
  backoff executor, at least once and at most five times: after retryable failures again,
  and what the upstream API answers to the last of these requests, the text or the
  failure, is what the operation returns.
\<close>

theorem C7_csv_not_cached:
  "cache (snd (generateCsvReport c query w)) = cache (snd (resolveAccountId c (accountId query) w))
   \<and> (truthy (accountId query) \<or> truthy (defaultAccountId c) \<longrightarrow>
        generateCsvReport c query (w\<lparr>cache := ch\<rparr>)
          = (fst (generateCsvReport c query w), (snd (generateCsvReport c query w))\<lparr>cache := ch\<rparr>))
   \<and> (fst (resolveAccountId c (accountId query) w) = Inl failure \<longrightarrow>
        generateCsvReport c query w = (Inl failure, snd (resolveAccountId c (accountId query) w)))
   \<and> (fst (resolveAccountId c (accountId query) w) = Inr resolvedId \<longrightarrow>
        length (sent (snd (resolveAccountId c (accountId query) w)))
          < length (sent (snd (generateCsvReport c query w)))
        \<and> last (sent (snd (generateCsvReport c query w))) = ReportsGenerateCsv resolvedId query
        \<and> length (requestTimestamps (snd (generateCsvReport c query w)))
          = Suc (length (filter (\<lambda>ts. clock (snd (resolveAccountId c (accountId query) w)) - 60000 < ts)
                  (requestTimestamps (snd (resolveAccountId c (accountId query) w)))))
        \<and> (\<exists>k<5.
              fst (generateCsvReport c query w)
                = reports_generateCsv c
                    (length (sent (snd (resolveAccountId c (accountId query) w))) + k) resolvedId query
              \<and> sent (snd (generateCsvReport c query w))
                = sent (snd (resolveAccountId c (accountId query) w))
                    @ replicate (Suc k) (ReportsGenerateCsv resolvedId query)
              \<and> (\<forall>j<k. \<exists>e.
                    reports_generateCsv c
                      (length (sent (snd (resolveAccountId c (accountId query) w))) + j)
                      resolvedId query = Inl e \<and> isRetryable e)
              \<and> (\<forall>e.
                    reports_generateCsv c
                      (length (sent (snd (resolveAccountId c (accountId query) w))) + k)
                      resolvedId query = Inl e \<longrightarrow> \<not> isRetryable e \<or> k = 4)))"
  using generateCsvReport_cache [of c query w]
    generateCsvReport_any_cache [where query = query and c = c and w = w and ch = ch]
    generateCsvReport_unresolved [where query = query and c = c and w = w and e = failure]
    generateCsvReport_network [where query = query and c = c and w = w and resolvedId = resolvedId]
    generateCsvReport_result [where query = query and c = c and w = w and resolvedId = resolvedId]
  by blast

text \<open>The theorem at an export for the explicit account \<open>pub-1\<close>, on an empty cache and
  on a cache that holds an account listing, from an upstream API that answers the first
  request with status 503 and the second with the report: the report is returned after
  two requests.\<close>

theorem C7_csv_not_cached_witness:
  "truthy (accountId (example_query (Some ''pub-1'')))
   \<and> fst (resolveAccountId flaky_client (accountId (example_query (Some ''pub-1'')))
         (fresh_world 1000)) = Inr ''accounts/pub-1''
   \<and> cache (snd (generateCsvReport flaky_client (example_query (Some ''pub-1''))
         (fresh_world 1000))) = initSchema
   \<and> fst (generateCsvReport flaky_client (example_query (Some ''pub-1''))
         ((fresh_world 1000)\<lparr>cache := CacheManager_set listing_platform initSchema ''accounts''
              EmptyObject [] ACCOUNTS ''global'' 500\<rparr>))
       = fst (generateCsvReport flaky_client (example_query (Some ''pub-1'')) (fresh_world 1000))
   \<and> fst (generateCsvReport flaky_client (example_query (Some ''pub-1'')) (fresh_world 1000))
       = Inr ''DATE,ESTIMATED_EARNINGS''
   \<and> sent (snd (generateCsvReport flaky_client (example_query (Some ''pub-1''))
         (fresh_world 1000)))
       = [ReportsGenerateCsv ''accounts/pub-1'' (example_query (Some ''pub-1'')),
          ReportsGenerateCsv ''accounts/pub-1'' (example_query (Some ''pub-1''))]"
proof -
  let ?c = "flaky_client"
  let ?q = "example_query (Some ''pub-1'')"
  let ?w = "fresh_world 1000"
  let ?api = "\<lambda>n. reports_generateCsv ?c n ''accounts/pub-1'' ?q"
  have h1: "truthy (accountId ?q)" by code_simp
  have h2: "fst (resolveAccountId ?c (accountId ?q) ?w) = Inr ''accounts/pub-1''" by code_simp
  have w0: "snd (resolveAccountId ?c (accountId ?q) ?w) = ?w" by code_simp
  have none: "sent ?w = []" "cache ?w = initSchema" by (simp_all add: fresh_world_def)
  have api: "?api 0 = Inl err503" "\<And>n. 0 < n \<Longrightarrow> ?api n = Inr ''DATE,ESTIMATED_EARNINGS''"
    by (simp_all add: flaky_client_def)
  have r: "isRetryable err503"
    by (simp add: isRetryable_def isRateLimited_def err503_def)
  note inst = C7_csv_not_cached [of ?c ?q ?w
        "CacheManager_set listing_platform initSchema ''accounts'' EmptyObject [] ACCOUNTS ''global'' 500"
        _ "''accounts/pub-1''"]
  obtain k where k: "k < 5"
    and res: "fst (generateCsvReport ?c ?q ?w) = ?api k"
    and snt: "sent (snd (generateCsvReport ?c ?q ?w))
                = replicate (Suc k) (ReportsGenerateCsv ''accounts/pub-1'' ?q)"
    and before: "\<forall>j<k. \<exists>e. ?api j = Inl e \<and> isRetryable e"
    and stop: "\<forall>e. ?api k = Inl e \<longrightarrow> \<not> isRetryable e \<or> k = 4"
    using inst h2 by (auto simp: w0 none)
  have "k \<noteq> 0"
  proof
    assume "k = 0"
    then have "\<not> isRetryable err503 \<or> (0::nat) = 4" using stop api(1) by simp
    then show False using r by simp
  qed
  moreover have "k < 2"
  proof (rule ccontr)
    assume "\<not> k < 2"
    then have "1 < k" by simp
    then obtain e where "?api 1 = Inl e" using before by blast
    then show False using api(2) [of 1] by simp
  qed
  ultimately have k1: "k = 1" by simp
  have a: "fst (generateCsvReport ?c ?q ?w) = Inr ''DATE,ESTIMATED_EARNINGS''"
    using res k1 api(2) [of 1] by simp
  have b: "sent (snd (generateCsvReport ?c ?q ?w))
             = [ReportsGenerateCsv ''accounts/pub-1'' ?q, ReportsGenerateCsv ''accounts/pub-1'' ?q]"
    using snt k1 by (simp add: numeral_2_eq_2)
  show ?thesis
    using h1 h2 a b inst by (simp add: w0 none)
qed









end
